theory Spec2Isabelle
  imports Main "HOL-Library.Word" "HOL-Library.Monad_Syntax"
begin

unbundle bit_operations_syntax

section \<open>The xs string of xs.c\<close>

text \<open>
  The program is one C file, \<^verbatim>\<open>xs.c\<close>: a 16-byte string value that keeps
  short strings in its own bytes and long ones in a heap buffer with a reference count
  stored behind the terminator. The model follows the C code statement by statement.

  \<^item> An \<^verbatim>\<open>xs\<close> value is the list of the 16 bytes of the union. The fields of
    its two struct views are read out of these bytes and written into them, with the
    layout the code relies on (little endian, bit-fields allocated from the low bit):
    \<^verbatim>\<open>ptr\<close> is the 64-bit word in bytes 0..7; in the 64-bit word of bytes 8..15,
    \<^verbatim>\<open>size\<close> is bits 0..53 and \<^verbatim>\<open>capacity\<close> bits 54..59; in byte 15,
    \<^verbatim>\<open>space_left\<close> is the low nibble and \<^verbatim>\<open>is_ptr\<close> is bit 4.
  \<^item> The heap is a table of blocks. \<^verbatim>\<open>malloc\<close> appends a block, whose address is
    its position counted from 1 (0 is the null pointer); \<^verbatim>\<open>free\<close> marks it dead.
    The bytes of a new block are not zero: they are given by the field \<open>junk\<close>, about
    which nothing is assumed.
  \<^item> Every function that touches memory returns an option: \<open>None\<close> stands for
    undefined behaviour (an access outside an object, an access to a freed block,
    \<^verbatim>\<open>__builtin_clz(0)\<close>).
  \<^item> The \<^verbatim>\<open>xs\<close> objects of the caller are passed by value. The temporaries of
    \<^verbatim>\<open>xs_tmp\<close> are compound literals inside a function: objects of automatic
    storage, which die when the block that holds them is left. The static pointer
    \<^verbatim>\<open>old\<close> of \<^verbatim>\<open>xs_tok\<close> only ever points to such a temporary, so the model
    keeps, with the pointer, whether its object is alive; reading or writing through
    a pointer to a dead object is undefined behaviour.
\<close>

type_synonym byte = "8 word"

type_synonym xs = "byte list"

text \<open>
  A pointer to a temporary: the null pointer, a pointer to a temporary that is alive
  (with the bytes of that object), or a pointer to a temporary that has died.
\<close>

datatype tmp_ptr = Null | Live xs | Dead

record memory =
  blocks :: "byte list option list"
  junk :: "nat \<Rightarrow> nat \<Rightarrow> byte"
  old :: tmp_ptr

subsection \<open>Heap blocks\<close>

definition block_at :: "memory \<Rightarrow> nat \<Rightarrow> byte list option" where
  "block_at m a =
     (if a = 0 \<or> length (blocks m) < a then None else blocks m ! (a - 1))"

definition set_block :: "memory \<Rightarrow> nat \<Rightarrow> byte list option \<Rightarrow> memory" where
  "set_block m a b = (if a = 0 then m else m\<lparr>blocks := (blocks m)[a - 1 := b]\<rparr>)"

definition malloc :: "memory \<Rightarrow> nat \<Rightarrow> nat \<times> memory" where
  "malloc m n =
     (let a = Suc (length (blocks m))
      in (a, m\<lparr>blocks := blocks m @ [Some (map (junk m a) [0..<n])]\<rparr>))"

definition free :: "memory \<Rightarrow> nat \<Rightarrow> memory option" where
  "free m a =
     (if a = 0 then Some m
      else do { _ \<leftarrow> block_at m a; Some (set_block m a None) })"

definition realloc :: "memory \<Rightarrow> nat \<Rightarrow> nat \<Rightarrow> (nat \<times> memory) option" where
  "realloc m a n =
     (if a = 0 then Some (malloc m n)
      else do {
        b \<leftarrow> block_at m a;
        let (a', m) = malloc m n;
        c \<leftarrow> block_at m a';
        let m = set_block m a' (Some (take n b @ drop (length b) c));
        Some (a', set_block m a None)
      })"

definition blk_load :: "memory \<Rightarrow> nat \<Rightarrow> nat \<Rightarrow> byte option" where
  "blk_load m a i =
     do { b \<leftarrow> block_at m a; if i < length b then Some (b ! i) else None }"

definition blk_store :: "memory \<Rightarrow> nat \<Rightarrow> nat \<Rightarrow> byte \<Rightarrow> memory option" where
  "blk_store m a i v =
     do { b \<leftarrow> block_at m a;
          if i < length b then Some (set_block m a (Some (b[i := v]))) else None }"

subsection \<open>The bytes of the union and its bit-fields\<close>

fun le_val :: "byte list \<Rightarrow> nat" where
  "le_val [] = 0"
| "le_val (b # bs) = unat b + 256 * le_val bs"

fun le_bytes :: "nat \<Rightarrow> nat \<Rightarrow> byte list" where
  "le_bytes 0 v = []"
| "le_bytes (Suc n) v = of_nat (v mod 256) # le_bytes n (v div 256)"

definition lo_word :: "xs \<Rightarrow> nat" where
  "lo_word x = le_val (take 8 x)"

definition hi_word :: "xs \<Rightarrow> nat" where
  "hi_word x = le_val (take 8 (drop 8 x))"

definition put_lo :: "nat \<Rightarrow> xs \<Rightarrow> xs" where
  "put_lo v x = le_bytes 8 v @ drop 8 x"

definition put_hi :: "nat \<Rightarrow> xs \<Rightarrow> xs" where
  "put_hi v x = take 8 x @ le_bytes 8 v @ drop 16 x"

definition get_bits :: "nat \<Rightarrow> nat \<Rightarrow> nat \<Rightarrow> nat" where
  "get_bits pos wd w = take_bit wd (drop_bit pos w)"

definition put_bits :: "nat \<Rightarrow> nat \<Rightarrow> nat \<Rightarrow> nat \<Rightarrow> nat" where
  "put_bits pos wd v w =
     take_bit pos w OR push_bit pos (take_bit wd v)
       OR push_bit (pos + wd) (drop_bit (pos + wd) w)"

definition xs_ptr :: "xs \<Rightarrow> nat" where
  "xs_ptr x = lo_word x"

definition size_field :: "xs \<Rightarrow> nat" where
  "size_field x = get_bits 0 54 (hi_word x)"

definition capacity_field :: "xs \<Rightarrow> nat" where
  "capacity_field x = get_bits 54 6 (hi_word x)"

definition space_left :: "xs \<Rightarrow> nat" where
  "space_left x = get_bits 56 4 (hi_word x)"

definition xs_is_ptr :: "xs \<Rightarrow> bool" where
  "xs_is_ptr x = (get_bits 60 1 (hi_word x) = 1)"

definition set_ptr :: "nat \<Rightarrow> xs \<Rightarrow> xs" where
  "set_ptr a x = put_lo a x"

definition set_size :: "nat \<Rightarrow> xs \<Rightarrow> xs" where
  "set_size n x = put_hi (put_bits 0 54 n (hi_word x)) x"

definition set_capacity :: "nat \<Rightarrow> xs \<Rightarrow> xs" where
  "set_capacity c x = put_hi (put_bits 54 6 c (hi_word x)) x"

definition set_space_left :: "nat \<Rightarrow> xs \<Rightarrow> xs" where
  "set_space_left k x = put_hi (put_bits 56 4 k (hi_word x)) x"

definition set_is_ptr :: "bool \<Rightarrow> xs \<Rightarrow> xs" where
  "set_is_ptr b x = put_hi (put_bits 60 1 (if b then 1 else 0) (hi_word x)) x"

subsection \<open>Accessors\<close>

text \<open>A \<^verbatim>\<open>char *\<close> into a string's data: the string's own 16 bytes, or a heap block.\<close>

datatype loc = Own | Blk nat

definition xs_size :: "xs \<Rightarrow> nat" where
  "xs_size x = (if xs_is_ptr x then size_field x else 15 - space_left x)"

definition xs_data :: "xs \<Rightarrow> loc" where
  "xs_data x = (if xs_is_ptr x then Blk (xs_ptr x) else Own)"

definition xs_capacity :: "xs \<Rightarrow> nat" where
  "xs_capacity x = (if xs_is_ptr x then 2 ^ capacity_field x - 1 else 15)"

definition xs_literal_empty :: xs where
  "xs_literal_empty = set_space_left 15 (replicate 16 0)"

text \<open>The array a location points into, and writing it back.\<close>

definition fetch :: "xs \<Rightarrow> memory \<Rightarrow> loc \<Rightarrow> byte list option" where
  "fetch x m l = (case l of Own \<Rightarrow> Some x | Blk a \<Rightarrow> block_at m a)"

definition stash :: "xs \<Rightarrow> memory \<Rightarrow> loc \<Rightarrow> byte list \<Rightarrow> xs \<times> memory" where
  "stash x m l b = (case l of Own \<Rightarrow> (b, m) | Blk a \<Rightarrow> (x, set_block m a (Some b)))"

definition load :: "xs \<Rightarrow> memory \<Rightarrow> loc \<Rightarrow> nat \<Rightarrow> byte option" where
  "load x m l i =
     do { b \<leftarrow> fetch x m l; if i < length b then Some (b ! i) else None }"

definition store :: "xs \<Rightarrow> memory \<Rightarrow> loc \<Rightarrow> nat \<Rightarrow> byte \<Rightarrow> (xs \<times> memory) option" where
  "store x m l i v =
     do { b \<leftarrow> fetch x m l;
          if i < length b then Some (stash x m l (b[i := v])) else None }"

definition load_n :: "xs \<Rightarrow> memory \<Rightarrow> loc \<Rightarrow> nat \<Rightarrow> nat \<Rightarrow> byte list option" where
  "load_n x m l i n =
     do { b \<leftarrow> fetch x m l;
          if i + n \<le> length b then Some (take n (drop i b)) else None }"

definition store_n :: "xs \<Rightarrow> memory \<Rightarrow> loc \<Rightarrow> nat \<Rightarrow> byte list \<Rightarrow> (xs \<times> memory) option" where
  "store_n x m l i bs =
     do { b \<leftarrow> fetch x m l;
          if i + length bs \<le> length b
          then Some (stash x m l (take i b @ bs @ drop (i + length bs) b))
          else None }"

text \<open>\<^verbatim>\<open>strlen(p)\<close>, where \<open>p\<close> lists the bytes from the pointer to the end of its object.\<close>

definition strlen :: "byte list \<Rightarrow> nat option" where
  "strlen p = (if 0 \<in> set p then Some (length (takeWhile (\<lambda>c. c \<noteq> 0) p)) else None)"

text \<open>\<^verbatim>\<open>xs_ref_counter(x)\<close> is \<^verbatim>\<open>*(x->ptr + x->size + 1)\<close>.\<close>

definition xs_ref_counter :: "memory \<Rightarrow> xs \<Rightarrow> byte option" where
  "xs_ref_counter m x = blk_load m (xs_ptr x) (size_field x + 1)"

definition set_ref_counter :: "memory \<Rightarrow> xs \<Rightarrow> byte \<Rightarrow> memory option" where
  "set_ref_counter m x v = blk_store m (xs_ptr x) (size_field x + 1) v"

definition MAX_REF_COUNTER :: byte where
  "MAX_REF_COUNTER = 255"

subsection \<open>ilog2\<close>

fun bit_len :: "nat \<Rightarrow> nat" where
  "bit_len n = (if n = 0 then 0 else Suc (bit_len (n div 2)))"

text \<open>\<^verbatim>\<open>__builtin_clz\<close> on a 32-bit value; it is undefined at 0.\<close>

definition builtin_clz :: "nat \<Rightarrow> nat option" where
  "builtin_clz n = (if n = 0 then None else Some (32 - bit_len n))"

text \<open>The argument of \<^verbatim>\<open>ilog2\<close> is a \<^verbatim>\<open>uint32_t\<close>: a \<^verbatim>\<open>size_t\<close> is cut to 32 bits.\<close>

definition ilog2 :: "nat \<Rightarrow> nat option" where
  "ilog2 n = do { z \<leftarrow> builtin_clz (n mod 2 ^ 32); Some (32 - z - 1) }"

subsection \<open>xs_new\<close>

definition xs_new :: "memory \<Rightarrow> byte list \<Rightarrow> (xs \<times> memory) option" where
  "xs_new m p = do {
     let x = xs_literal_empty;
     n \<leftarrow> strlen p;
     let len = n + 1;
     if len > 16 then do {
       k \<leftarrow> ilog2 len;
       let x = set_capacity (k + 1) x;
       let x = set_size (len - 1) x;
       let x = set_is_ptr True x;
       let (a, m) = malloc m (2 ^ capacity_field x);
       let x = set_ptr a x;
       (x, m) \<leftarrow> store_n x m (Blk (xs_ptr x)) 0 (take len p);
       m \<leftarrow> set_ref_counter m x 1;
       Some (x, m)
     } else do {
       (x, m) \<leftarrow> store_n x m Own 0 (take len p);
       let x = set_space_left (15 - (len - 1)) x;
       let x = set_is_ptr False x;
       Some (x, m)
     }
   }"

text \<open>\<^verbatim>\<open>xs_tmp(p)\<close> is \<^verbatim>\<open>xs_new(&xs_literal_empty(), p)\<close>: a new temporary object.\<close>

definition xs_tmp :: "memory \<Rightarrow> byte list \<Rightarrow> (xs \<times> memory) option" where
  "xs_tmp m p = xs_new m p"

subsection \<open>xs_grow, xs_free\<close>

definition xs_grow :: "memory \<Rightarrow> xs \<Rightarrow> nat \<Rightarrow> (xs \<times> memory) option" where
  "xs_grow m x len =
     (if len \<le> xs_capacity x then Some (x, m)
      else do {
        k \<leftarrow> ilog2 len;
        let len = k + 1;
        (x, m) \<leftarrow>
          (if xs_is_ptr x then do {
             (a, m) \<leftarrow> realloc m (xs_ptr x) (2 ^ len);
             Some (set_ptr a x, m)
           } else do {
             let buf = take 16 x;
             let (a, m) = malloc m (2 ^ len);
             let x = set_ptr a x;
             (x, m) \<leftarrow> store_n x m (Blk (xs_ptr x)) 0 buf;
             Some (x, m)
           });
        let x = set_is_ptr True x;
        let x = set_capacity len x;
        Some (x, m)
      })"

definition xs_newempty :: xs where
  "xs_newempty = xs_literal_empty"

definition free_loc :: "memory \<Rightarrow> loc \<Rightarrow> memory option" where
  "free_loc m l = (case l of Own \<Rightarrow> None | Blk a \<Rightarrow> free m a)"

definition xs_free :: "memory \<Rightarrow> xs \<Rightarrow> (xs \<times> memory) option" where
  "xs_free m x = do {
     m \<leftarrow> (if xs_is_ptr x then free_loc m (xs_data x) else Some m);
     Some (xs_newempty, m)
   }"

subsection \<open>xs_cow\<close>

definition xs_cow :: "memory \<Rightarrow> xs \<Rightarrow> (xs \<times> memory) option" where
  "xs_cow m x = do {
     c \<leftarrow> blk_load m (xs_ptr x) (size_field x + 1);
     m \<leftarrow> blk_store m (xs_ptr x) (size_field x + 1) (c - 1);
     p \<leftarrow> block_at m (xs_ptr x);
     (dup_x, m) \<leftarrow> xs_tmp m p;
     Some (dup_x, m)
   }"

text \<open>
  \<^verbatim>\<open>if (xs_is_ptr(x) && xs_ref_counter(x) != 1) xs_cow(x);\<close>, the first statement of
  \<^verbatim>\<open>xs_concat\<close>, and of \<^verbatim>\<open>xs_trim\<close> and \<^verbatim>\<open>xs_tok\<close> after their early returns.
\<close>

definition is_shared :: "memory \<Rightarrow> xs \<Rightarrow> bool option" where
  "is_shared m x =
     (if xs_is_ptr x then do { c \<leftarrow> xs_ref_counter m x; Some (c \<noteq> 1) } else Some False)"

definition cow_if_shared :: "memory \<Rightarrow> xs \<Rightarrow> (xs \<times> memory) option" where
  "cow_if_shared m x = do { sh \<leftarrow> is_shared m x; if sh then xs_cow m x else Some (x, m) }"

text \<open>\<^verbatim>\<open>if (xs_is_ptr(x)) xs_ref_counter(x) = 1;\<close>\<close>

definition reset_counter :: "memory \<Rightarrow> xs \<Rightarrow> memory option" where
  "reset_counter m x = (if xs_is_ptr x then set_ref_counter m x 1 else Some m)"

text \<open>Subtraction of two \<^verbatim>\<open>size_t\<close> values wraps around.\<close>

definition size_t_sub :: "nat \<Rightarrow> nat \<Rightarrow> nat" where
  "size_t_sub a b = (a + 2 ^ 64 - b) mod 2 ^ 64"

definition memmove :: "xs \<Rightarrow> memory \<Rightarrow> loc \<Rightarrow> nat \<Rightarrow> nat \<Rightarrow> nat \<Rightarrow> (xs \<times> memory) option" where
  "memmove x m l dst src n = do { bs \<leftarrow> load_n x m l src n; store_n x m l dst bs }"

subsection \<open>xs_concat\<close>

text \<open>The branch \<^verbatim>\<open>size + pres + sufs <= capacity\<close>: the string is edited where it is.\<close>

definition concat_in_place :: "memory \<Rightarrow> xs \<Rightarrow> xs \<Rightarrow> xs \<Rightarrow> (xs \<times> memory) option" where
  "concat_in_place m string prefix suffix = do {
     let pres = xs_size prefix;
     let sufs = xs_size suffix;
     let sz = xs_size string;
     let pre = xs_data prefix;
     let suf = xs_data suffix;
     let data = xs_data string;
     (string, m) \<leftarrow> memmove string m data pres 0 sz;
     bs \<leftarrow> load_n prefix m pre 0 pres;
     (string, m) \<leftarrow> store_n string m data 0 bs;
     bs \<leftarrow> load_n suffix m suf 0 (sufs + 1);
     (string, m) \<leftarrow> store_n string m data (pres + sz) bs;
     Some (if xs_is_ptr string then set_size (sz + pres + sufs) string
           else set_space_left (size_t_sub 15 (sz + pres + sufs)) string, m)
   }"

text \<open>The other branch: the result is put together in a new buffer.\<close>

definition concat_fresh :: "memory \<Rightarrow> xs \<Rightarrow> xs \<Rightarrow> xs \<Rightarrow> (xs \<times> memory) option" where
  "concat_fresh m string prefix suffix = do {
     let pres = xs_size prefix;
     let sufs = xs_size suffix;
     let sz = xs_size string;
     let pre = xs_data prefix;
     let suf = xs_data suffix;
     let data = xs_data string;
     let tmps = xs_literal_empty;
     (tmps, m) \<leftarrow> xs_grow m tmps (sz + pres + sufs);
     let tmpdata = xs_data tmps;
     bs \<leftarrow> load_n string m data 0 sz;
     (tmps, m) \<leftarrow> store_n tmps m tmpdata pres bs;
     bs \<leftarrow> load_n prefix m pre 0 pres;
     (tmps, m) \<leftarrow> store_n tmps m tmpdata 0 bs;
     bs \<leftarrow> load_n suffix m suf 0 (sufs + 1);
     (tmps, m) \<leftarrow> store_n tmps m tmpdata (pres + sz) bs;
     (string, m) \<leftarrow> xs_free m string;
     let string = tmps;
     Some (set_size (sz + pres + sufs) string, m)
   }"

definition xs_concat :: "memory \<Rightarrow> xs \<Rightarrow> xs \<Rightarrow> xs \<Rightarrow> (xs \<times> memory) option" where
  "xs_concat m string prefix suffix = do {
     (string, m) \<leftarrow> cow_if_shared m string;
     (string, m) \<leftarrow>
       (if xs_size string + xs_size prefix + xs_size suffix \<le> xs_capacity string
        then concat_in_place m string prefix suffix
        else concat_fresh m string prefix suffix);
     m \<leftarrow> reset_counter m string;
     Some (string, m)
   }"

subsection \<open>The byte set of xs_trim and xs_tok\<close>

definition set_bit_mask :: "byte list \<Rightarrow> byte \<Rightarrow> byte list" where
  "set_bit_mask msk b =
     msk[unat b div 8 := (msk ! (unat b div 8)) OR push_bit (unat b mod 8) 1]"

definition check_bit :: "byte list \<Rightarrow> byte \<Rightarrow> bool" where
  "check_bit msk b = ((msk ! (unat b div 8)) AND push_bit (unat b mod 8) 1 \<noteq> 0)"

text \<open>\<^verbatim>\<open>uint8_t mask[32] = {0}; for (i = 0; i < n; i++) set_bit(cs[i]);\<close>\<close>

definition make_mask :: "byte list \<Rightarrow> nat \<Rightarrow> byte list" where
  "make_mask cs n = foldl set_bit_mask (replicate 32 0) (take n cs)"

text \<open>\<^verbatim>\<open>for (; i < n; i++) if (!check_bit(b[i])) break;\<close>\<close>

function scan_in :: "byte list \<Rightarrow> byte list \<Rightarrow> nat \<Rightarrow> nat \<Rightarrow> nat option" where
  "scan_in msk b i n =
     (if i < n then
        (if i < length b then
           (if check_bit msk (b ! i) then scan_in msk b (Suc i) n else Some i)
         else None)
      else Some i)"
  by pat_completeness auto
termination
  by (relation "measure (\<lambda>(msk, b, i, n). n - i)") auto

text \<open>\<^verbatim>\<open>for (; i < n; i++) if (check_bit(b[i])) break;\<close>\<close>

function scan_out :: "byte list \<Rightarrow> byte list \<Rightarrow> nat \<Rightarrow> nat \<Rightarrow> nat option" where
  "scan_out msk b i n =
     (if i < n then
        (if i < length b then
           (if check_bit msk (b ! i) then Some i else scan_out msk b (Suc i) n)
         else None)
      else Some i)"
  by pat_completeness auto
termination
  by (relation "measure (\<lambda>(msk, b, i, n). n - i)") auto

text \<open>\<^verbatim>\<open>for (; n > 0; n--) if (!check_bit(b[n - 1])) break;\<close>\<close>

function scan_back :: "byte list \<Rightarrow> byte list \<Rightarrow> nat \<Rightarrow> nat option" where
  "scan_back msk b n =
     (if n > 0 then
        (if n - 1 < length b then
           (if check_bit msk (b ! (n - 1)) then scan_back msk b (n - 1) else Some n)
         else None)
      else Some n)"
  by pat_completeness auto
termination
  by (relation "measure (\<lambda>(msk, b, n). n)") auto

subsection \<open>xs_trim\<close>

text \<open>\<^verbatim>\<open>xs_trim\<close> from the line \<^verbatim>\<open>char *dataptr = xs_data(x), *orig = dataptr;\<close> on.\<close>

definition trim_in_place :: "memory \<Rightarrow> xs \<Rightarrow> byte list \<Rightarrow> (xs \<times> memory) option" where
  "trim_in_place m x trimset = do {
     let dataptr = xs_data x;
     let orig = dataptr;
     let slen = xs_size x;
     trimlen \<leftarrow> strlen trimset;
     let msk = make_mask trimset trimlen;
     b \<leftarrow> fetch x m dataptr;
     i \<leftarrow> scan_in msk b 0 slen;
     slen \<leftarrow> scan_back msk b slen;
     let slen = size_t_sub slen i;
     (x, m) \<leftarrow> memmove x m orig 0 i slen;
     c \<leftarrow> load x m orig slen;
     (x, m) \<leftarrow> (if c \<noteq> 0 then store x m orig slen 0 else Some (x, m));
     if xs_is_ptr x then do {
       let x = set_size slen x;
       m \<leftarrow> set_ref_counter m x 1;
       Some (x, m)
     } else Some (set_space_left (size_t_sub 15 slen) x, m)
   }"

definition xs_trim :: "memory \<Rightarrow> xs \<Rightarrow> byte list \<Rightarrow> (xs \<times> memory) option" where
  "xs_trim m x trimset = do {
     t0 \<leftarrow> (if trimset = [] then None else Some (hd trimset));
     if t0 = 0 then Some (x, m)
     else do {
       (x, m) \<leftarrow> cow_if_shared m x;
       trim_in_place m x trimset
     }
   }"

subsection \<open>xs_copy\<close>

text \<open>The first step: \<^verbatim>\<open>dest\<close> gives up the buffer it has.\<close>

definition copy_release :: "memory \<Rightarrow> xs \<Rightarrow> memory option" where
  "copy_release m d =
     (if xs_is_ptr d then do {
        c \<leftarrow> xs_ref_counter m d;
        m \<leftarrow> set_ref_counter m d (c - 1);
        c \<leftarrow> xs_ref_counter m d;
        if c = 0 then free_loc m (xs_data d) else Some m
      } else Some m)"

text \<open>
  \<^verbatim>\<open>xs_is_ptr(src) && (unsigned char) xs_ref_counter(src) == MAX_REF_COUNTER\<close>
\<close>

definition is_saturated :: "memory \<Rightarrow> xs \<Rightarrow> bool option" where
  "is_saturated m s =
     (if xs_is_ptr s then do { c \<leftarrow> xs_ref_counter m s; Some (c = MAX_REF_COUNTER) }
      else Some False)"

text \<open>Both arguments are pointers that may be null: \<open>None\<close> is the null pointer.\<close>

definition xs_copy :: "memory \<Rightarrow> xs option \<Rightarrow> xs option \<Rightarrow> (xs option \<times> memory) option" where
  "xs_copy m dest src =
     (case (dest, src) of
        (Some d, Some s) \<Rightarrow> do {
          m \<leftarrow> copy_release m d;
          full \<leftarrow> is_saturated m s;
          if full then do {
            p \<leftarrow> block_at m (xs_ptr s);
            (dup_x, m) \<leftarrow> xs_tmp m p;
            Some (Some dup_x, m)
          } else do {
            let d = s;
            m \<leftarrow>
              (if xs_is_ptr s then do {
                 c \<leftarrow> xs_ref_counter m s;
                 set_ref_counter m s (c + 1)
               } else Some m);
            Some (Some d, m)
          }
        }
      | _ \<Rightarrow> Some (dest, m))"

subsection \<open>xs_tok\<close>

text \<open>
  The result of \<open>xs_tok\<close> is \<open>(r, x, m)\<close>: \<open>r\<close> tells whether the call returns \<open>x\<close>
  (a token) or the null pointer, \<open>x\<close> is the string object the call worked on as it
  leaves it, and the static pointer is the field \<open>old\<close> of \<open>m\<close>.
\<close>

text \<open>
  Passing a pointer to a temporary to \<^verbatim>\<open>xs_copy\<close>: the null pointer, or the object
  it points to. A dangling pointer has no object: \<^verbatim>\<open>xs_copy\<close> reads and writes
  through both of its arguments, which is undefined.
\<close>

definition deref :: "tmp_ptr \<Rightarrow> xs option option" where
  "deref p = (case p of Null \<Rightarrow> Some None | Live t \<Rightarrow> Some (Some t) | Dead \<Rightarrow> None)"

text \<open>The pointer after \<^verbatim>\<open>xs_copy\<close> has written the object behind it.\<close>

definition written :: "tmp_ptr \<Rightarrow> xs option \<Rightarrow> tmp_ptr" where
  "written p r = (case r of None \<Rightarrow> p | Some t \<Rightarrow> Live t)"

text \<open>\<^verbatim>\<open>xs_copy(old, x)\<close>\<close>

definition copy_to_old :: "memory \<Rightarrow> xs \<Rightarrow> memory option" where
  "copy_to_old m x = do {
     d \<leftarrow> deref (old m);
     (r, m) \<leftarrow> xs_copy m d (Some x);
     Some (m\<lparr>old := written (old m) r\<rparr>)
   }"

text \<open>
  \<^verbatim>\<open>if (x == NULL) x = xs_copy(xs_tmp(""), old);\<close>
  The temporary of \<^verbatim>\<open>xs_tmp("")\<close> is a compound literal of the substatement of this
  \<^verbatim>\<open>if\<close>, which is a block of its own: the object dies at the end of the statement,
  and \<^verbatim>\<open>x\<close>, which \<^verbatim>\<open>xs_copy\<close> returned, points to it. The next line reads
  \<^verbatim>\<open>x\<close>, and every later one does: a call with the null pointer is undefined
  behaviour, whatever \<^verbatim>\<open>old\<close> is.
\<close>

definition tok_arg :: "memory \<Rightarrow> xs option \<Rightarrow> (xs \<times> memory) option" where
  "tok_arg m x0 =
     (case x0 of
        Some x \<Rightarrow> Some (x, m)
      | None \<Rightarrow> do {
          (t, m) \<leftarrow> xs_tmp m [0];
          d \<leftarrow> deref (old m);
          (r, m) \<leftarrow> xs_copy m (Some t) d;
          None
        })"

text \<open>
  Lines 241 to 264: the leading delimiters are skipped and the rest is moved to the
  front. The result carries the byte set, the new length and the pointer \<^verbatim>\<open>orig\<close>.
\<close>

definition tok_skip ::
  "memory \<Rightarrow> xs \<Rightarrow> byte list \<Rightarrow> (xs \<times> memory \<times> byte list \<times> nat \<times> loc) option" where
  "tok_skip m x delim = do {
     let dataptr = xs_data x;
     let orig = dataptr;
     let xlen = xs_size x;
     dlen \<leftarrow> strlen delim;
     let msk = make_mask delim dlen;
     b \<leftarrow> fetch x m dataptr;
     i \<leftarrow> scan_in msk b 0 xlen;
     let xlen = size_t_sub xlen i;
     (x, m) \<leftarrow> memmove x m orig 0 i xlen;
     (x, m) \<leftarrow> store x m orig xlen 0;
     let x = (if xs_is_ptr x then set_size xlen x
              else set_space_left (size_t_sub 15 xlen) x);
     Some (x, m, msk, xlen, orig)
   }"

text \<open>
  Lines 266 to 294: the token is cut off, and \<^verbatim>\<open>old\<close> is made to point to a new
  temporary that holds the rest (line 287).
\<close>

definition tok_split ::
  "memory \<Rightarrow> xs \<Rightarrow> byte list \<Rightarrow> nat \<Rightarrow> loc \<Rightarrow> (bool \<times> xs \<times> memory) option" where
  "tok_split m x msk xlen orig = do {
     c \<leftarrow> load x m (xs_data x) 0;
     if c = 0 then do {
       m \<leftarrow> copy_to_old m x;
       m \<leftarrow> reset_counter m x;
       Some (False, x, m)
     } else do {
       let dataptr = xs_data x;
       b \<leftarrow> fetch x m dataptr;
       i \<leftarrow> scan_out msk b 0 xlen;
       let xlen = i;
       c \<leftarrow> load x m (xs_data x) xlen;
       if c = 0 then do {
         (t, m) \<leftarrow> xs_tmp m [0];
         m \<leftarrow> copy_to_old m t;
         m \<leftarrow> reset_counter m x;
         Some (True, x, m)
       } else do {
         (x, m) \<leftarrow> store x m orig xlen 0;
         b \<leftarrow> fetch x m (xs_data x);
         (t, m) \<leftarrow> xs_tmp m (drop (xlen + 1) b);
         let m = m\<lparr>old := Live t\<rparr>;
         if xs_is_ptr x then do {
           let x = set_size xlen x;
           m \<leftarrow> set_ref_counter m x 1;
           Some (True, x, m)
         } else Some (True, set_space_left (size_t_sub 15 xlen) x, m)
       }
     }
   }"

text \<open>
  The test \<^verbatim>\<open>xs_data(x) == '\0'\<close> compares the pointer, not the byte it points to,
  with zero: it holds for a null data pointer only.
\<close>

definition tok_body :: "memory \<Rightarrow> xs option \<Rightarrow> byte list \<Rightarrow> (bool \<times> xs \<times> memory) option" where
  "tok_body m x0 delim = do {
     (x, m) \<leftarrow> tok_arg m x0;
     if xs_data x = Blk 0 then do { m \<leftarrow> copy_to_old m x; Some (False, x, m) }
     else do {
       d0 \<leftarrow> (if delim = [] then None else Some (hd delim));
       if d0 = 0 then Some (True, x, m)
       else do {
         (x, m) \<leftarrow> cow_if_shared m x;
         (x, m, msk, xlen, orig) \<leftarrow> tok_skip m x delim;
         tok_split m x msk xlen orig
       }
     }
   }"

text \<open>
  Leaving the function ends the lifetime of its temporaries: the one \<^verbatim>\<open>old\<close> was
  made to point to at line 287 is dead from then on, and \<^verbatim>\<open>old\<close> dangles.
\<close>

definition leave :: "memory \<Rightarrow> memory" where
  "leave m = m\<lparr>old := (case old m of Live t \<Rightarrow> Dead | p \<Rightarrow> p)\<rparr>"

definition xs_tok :: "memory \<Rightarrow> xs option \<Rightarrow> byte list \<Rightarrow> (bool \<times> xs \<times> memory) option" where
  "xs_tok m x0 delim = do { (r, x, m) \<leftarrow> tok_body m x0 delim; Some (r, x, leave m) }"

text \<open>The string a value denotes: the \<open>xs_size x\<close> bytes at \<open>xs_data x\<close>.\<close>

definition xs_bytes :: "memory \<Rightarrow> xs \<Rightarrow> byte list option" where
  "xs_bytes m x = load_n x m (xs_data x) 0 (xs_size x)"

subsection \<open>Scenarios\<close>

text \<open>The bytes of an ASCII text, without a terminator.\<close>

definition ascii :: "string \<Rightarrow> byte list" where
  "ascii s = map (\<lambda>c. of_nat (of_char c)) s"

text \<open>A memory with no block, \<^verbatim>\<open>old\<close> null, and 0xAA in every fresh byte.\<close>

definition mem0 :: memory where
  "mem0 = \<lparr>blocks = [], junk = (\<lambda>_ _. 170), old = Null\<rparr>"

text \<open>
  \<open>n\<close> calls of \<^verbatim>\<open>xs_tok\<close>, the first with the string and the others with the null
  pointer. Each call gives the bytes of the token it returns, or \<open>None\<close> when it returns
  the null pointer; the whole is \<open>None\<close> when a call is undefined.
\<close>

fun tok_run :: "memory \<Rightarrow> xs option \<Rightarrow> byte list \<Rightarrow> nat \<Rightarrow> byte list option list option" where
  "tok_run m x0 delim 0 = Some []"
| "tok_run m x0 delim (Suc n) = do {
     (r, x, m) \<leftarrow> xs_tok m x0 delim;
     t \<leftarrow> (if r then map_option Some (xs_bytes m x) else Some None);
     ts \<leftarrow> tok_run m None delim n;
     Some (t # ts)
   }"

subsection \<open>What a construction gives\<close>

definition least_class :: "nat \<Rightarrow> nat \<Rightarrow> bool" where
  "least_class n c = (n \<le> 2 ^ c \<and> (c = 0 \<or> 2 ^ (c - 1) < n))"

definition new_size :: "memory \<Rightarrow> byte list \<Rightarrow> nat option" where
  "new_size m p = do { (x, m) \<leftarrow> xs_new m p; Some (xs_size x) }"

definition new_bytes :: "memory \<Rightarrow> byte list \<Rightarrow> byte list option" where
  "new_bytes m p = do { (x, m) \<leftarrow> xs_new m p; xs_bytes m x }"

text \<open>What \<^verbatim>\<open>xs_new\<close> builds: the tag, the capacity class, the capacity, the
  number of bytes of the block and the reference count (the last two for a heap string).\<close>

definition new_layout :: "memory \<Rightarrow> byte list \<Rightarrow> (bool \<times> nat \<times> nat \<times> nat option \<times> byte option) option" where
  "new_layout m p = do {
     (x, m) \<leftarrow> xs_new m p;
     Some (xs_is_ptr x, capacity_field x, xs_capacity x,
           map_option length (block_at m (xs_ptr x)), xs_ref_counter m x)
   }"

definition new_is_ptr :: "memory \<Rightarrow> byte list \<Rightarrow> bool option" where
  "new_is_ptr m p = do { (x, m) \<leftarrow> xs_new m p; Some (xs_is_ptr x) }"






section \<open>Evaluation\<close>

declare scan_in.simps [simp del] scan_out.simps [simp del] scan_back.simps [simp del]
  bit_len.simps [simp del]

lemma replicate_numeral: "replicate (numeral k) a = a # replicate (pred_numeral k) a"
  using replicate.simps(2)[of "pred_numeral k" a] by (simp only: numeral_eq_Suc[symmetric])

lemma le_bytes_numeral:
  "le_bytes (numeral k) v = of_nat (v mod 256) # le_bytes (pred_numeral k) (v div 256)"
  using le_bytes.simps(2)[of "pred_numeral k" v] by (simp only: numeral_eq_Suc[symmetric])

lemma bind_weak_cong: "m = m' \<Longrightarrow> Option.bind m f = Option.bind m' f"
  by simp

lemmas field_defs = lo_word_def hi_word_def put_lo_def put_hi_def get_bits_def put_bits_def
  xs_ptr_def size_field_def capacity_field_def space_left_def xs_is_ptr_def set_ptr_def
  set_size_def set_capacity_def set_space_left_def set_is_ptr_def
  xs_size_def xs_data_def xs_capacity_def xs_literal_empty_def

lemmas mem_defs = block_at_def set_block_def malloc_def free_def realloc_def blk_load_def
  blk_store_def fetch_def stash_def load_def store_def load_n_def store_n_def strlen_def
  xs_ref_counter_def set_ref_counter_def MAX_REF_COUNTER_def builtin_clz_def ilog2_def
  free_loc_def memmove_def size_t_sub_def

lemmas op_defs = xs_new_def xs_tmp_def xs_grow_def xs_newempty_def xs_free_def xs_cow_def
  is_shared_def cow_if_shared_def reset_counter_def concat_in_place_def concat_fresh_def
  xs_concat_def set_bit_mask_def check_bit_def make_mask_def trim_in_place_def xs_trim_def
  copy_release_def is_saturated_def xs_copy_def copy_to_old_def deref_def written_def
  leave_def tok_body_def tok_arg_def tok_skip_def
  tok_split_def xs_tok_def xs_bytes_def

lemma tok_run_numeral:
  "tok_run m x0 delim (numeral k) = do {
     (r, x, m) \<leftarrow> xs_tok m x0 delim;
     t \<leftarrow> (if r then map_option Some (xs_bytes m x) else Some None);
     ts \<leftarrow> tok_run m None delim (pred_numeral k);
     Some (t # ts)
   }"
  using tok_run.simps(2)[of m x0 delim "pred_numeral k"]
  by (simp only: numeral_eq_Suc[symmetric])

lemma tok_run_one:
  "tok_run m x0 delim 1 = do {
     (r, x, m) \<leftarrow> xs_tok m x0 delim;
     t \<leftarrow> (if r then map_option Some (xs_bytes m x) else Some None);
     Some [t]
   }"
  using tok_run.simps(2)[of m x0 delim 0] by (simp add: tok_run.simps(1))

lemma upt_0_numeral: "[0..<numeral n] = 0 # [Suc 0..<numeral n]"
  by (subst upt_rec) simp

lemma upt_1_numeral:
  "[Suc 0..<numeral n] = (if Suc 0 < numeral n then Suc 0 # [2..<numeral n] else [])"
  by (subst upt_rec) (simp add: numeral_2_eq_2)

lemma Suc_Suc_0: "Suc (Suc 0) = 2"
  by simp

lemmas eval_simps = field_defs mem_defs op_defs replicate_numeral le_bytes_numeral
  upt_0_numeral upt_1_numeral Suc_Suc_0
  ascii_def mem0_def tok_run_numeral tok_run_one
  scan_in.simps scan_out.simps scan_back.simps bit_len.simps Let_def

lemmas eval_congs = let_weak_cong bind_weak_cong option.case_cong_weak loc.case_cong_weak
  tmp_ptr.case_cong_weak
  prod.case_cong_weak

section \<open>The representation\<close>

lemma le_val_le_bytes: "le_val (le_bytes n v) = v mod 256 ^ n"
proof (induction n arbitrary: v)
  case 0
  show ?case by simp
next
  case (Suc n)
  have "v mod 256 + 256 * (v div 256 mod 256 ^ n) = v mod (256 * 256 ^ n)"
    by (simp add: mod_mult2_eq)
  with Suc show ?case by (simp add: unat_of_nat)
qed

lemma length_le_bytes [simp]: "length (le_bytes n v) = n"
  by (induction n arbitrary: v) simp_all

lemma le_val_bound: "le_val bs < 256 ^ length bs"
proof (induction bs)
  case Nil
  show ?case by simp
next
  case (Cons b bs)
  have "unat b < 256" by (rule order_less_le_trans[OF unsigned_less]) simp
  with Cons show ?case by simp
qed

lemma le_val_append: "le_val (as @ bs) = le_val as + 256 ^ length as * le_val bs"
  by (induction as) (simp_all add: algebra_simps)

lemma le_bytes_le_val: "le_bytes (length bs) (le_val bs) = bs"
proof (induction bs)
  case Nil
  show ?case by simp
next
  case (Cons b bs)
  have b: "unat b < 256" by (rule order_less_le_trans[OF unsigned_less]) simp
  then have "(unat b + 256 * le_val bs) mod 256 = unat b" by simp
  moreover from b have "(unat b + 256 * le_val bs) div 256 = le_val bs" by simp
  ultimately show ?case using Cons by simp
qed

lemma le_bytes_mod: "le_bytes n (v mod 256 ^ n) = le_bytes n v"
proof (induction n arbitrary: v)
  case 0
  show ?case by simp
next
  case (Suc n)
  have a: "v mod (256 * 256 ^ n) mod 256 = v mod 256"
    by (simp add: mod_mod_cancel)
  have b: "v mod (256 * 256 ^ n) div 256 = (v div 256) mod 256 ^ n"
    by (simp add: mod_mult2_eq)
  show ?case using Suc[of "v div 256"] by (simp add: a b)
qed

lemma le_bytes_add: "le_bytes (n + k) v = le_bytes n v @ le_bytes k (v div 256 ^ n)"
proof (induction n arbitrary: v)
  case 0
  show ?case by simp
next
  case (Suc n)
  show ?case using Suc[of "v div 256"] by (simp add: div_mult2_eq)
qed

lemma pow_256_8: "(256::nat) ^ 8 = 2 ^ 64" by simp
lemma pow_256_7: "(256::nat) ^ 7 = 2 ^ 56" by simp

lemma hi_word_bound: "hi_word x < 2 ^ 64"
proof -
  have "le_val (take 8 (drop 8 x)) < 256 ^ length (take 8 (drop 8 x))" by (rule le_val_bound)
  also have "\<dots> \<le> 256 ^ 8" by (rule power_increasing) simp_all
  finally show ?thesis by (simp add: hi_word_def)
qed

lemma lo_word_bound: "lo_word x < 2 ^ 64"
proof -
  have "le_val (take 8 x) < 256 ^ length (take 8 x)" by (rule le_val_bound)
  also have "\<dots> \<le> 256 ^ 8" by (rule power_increasing) simp_all
  finally show ?thesis by (simp add: lo_word_def)
qed

lemma length_put_hi [simp]: "length x = 16 \<Longrightarrow> length (put_hi v x) = 16"
  by (simp add: put_hi_def)

lemma length_put_lo [simp]: "length x = 16 \<Longrightarrow> length (put_lo v x) = 16"
  by (simp add: put_lo_def)

lemma hi_word_put_hi: "length x = 16 \<Longrightarrow> hi_word (put_hi v x) = v mod 2 ^ 64"
  by (simp add: hi_word_def put_hi_def le_val_le_bytes)

lemma lo_word_put_hi: "length x = 16 \<Longrightarrow> lo_word (put_hi v x) = lo_word x"
  by (simp add: lo_word_def put_hi_def)

lemma hi_word_put_lo: "hi_word (put_lo v x) = hi_word x"
  by (simp add: hi_word_def put_lo_def)

lemma lo_word_put_lo: "lo_word (put_lo v x) = v mod 2 ^ 64"
  by (simp add: lo_word_def put_lo_def le_val_le_bytes)

lemma bit_get_bits: "bit (get_bits p w x) n \<longleftrightarrow> n < w \<and> bit x (p + n)"
  by (simp add: get_bits_def bit_simps ac_simps)

lemma bit_put_bits:
  "bit (put_bits p w v x) n \<longleftrightarrow>
     (n < p \<and> bit x n) \<or> (p \<le> n \<and> n < p + w \<and> bit v (n - p)) \<or> (p + w \<le> n \<and> bit x n)"
  by (auto simp add: put_bits_def bit_simps)

lemma get_put_same: "get_bits p w (put_bits p w v x) = take_bit w v"
  by (rule bit_eqI) (auto simp add: bit_get_bits bit_put_bits bit_simps)

lemma get_put_other:
  "p' + w' \<le> p \<or> p + w \<le> p' \<Longrightarrow> get_bits p' w' (put_bits p w v x) = get_bits p' w' x"
  by (rule bit_eqI) (auto simp add: bit_get_bits bit_put_bits)

lemma put_bits_bound:
  assumes "x < 2 ^ n" "p + w \<le> n"
  shows "put_bits p w v x < 2 ^ n"
proof -
  have "take_bit n (put_bits p w v x) = put_bits p w v x"
  proof (rule bit_eqI)
    fix k
    have "bit x k \<Longrightarrow> k < n"
      using assms(1) by (metis bit_take_bit_iff take_bit_nat_eq_self)
    with assms(2) show "bit (take_bit n (put_bits p w v x)) k = bit (put_bits p w v x) k"
      by (auto simp add: bit_simps bit_put_bits)
  qed
  then show ?thesis by (metis take_bit_nat_less_exp)
qed

lemma put_bits_hi_mod: "p + w \<le> 64 \<Longrightarrow> put_bits p w v (hi_word x) mod 2 ^ 64 = put_bits p w v (hi_word x)"
  using put_bits_bound[OF hi_word_bound] by simp

lemma length_set_size [simp]: "length x = 16 \<Longrightarrow> length (set_size n x) = 16"
  by (simp add: set_size_def)
lemma length_set_capacity [simp]: "length x = 16 \<Longrightarrow> length (set_capacity n x) = 16"
  by (simp add: set_capacity_def)
lemma length_set_space_left [simp]: "length x = 16 \<Longrightarrow> length (set_space_left n x) = 16"
  by (simp add: set_space_left_def)
lemma length_set_is_ptr [simp]: "length x = 16 \<Longrightarrow> length (set_is_ptr b x) = 16"
  by (simp add: set_is_ptr_def)
lemma length_set_ptr [simp]: "length x = 16 \<Longrightarrow> length (set_ptr a x) = 16"
  by (simp add: set_ptr_def)

text \<open>Reading a bit-field of the second word after a bit-field has been written.\<close>

lemma hi_put_field:
  "length x = 16 \<Longrightarrow> p + w \<le> 64 \<Longrightarrow>
   hi_word (put_hi (put_bits p w v (hi_word x)) x) = put_bits p w v (hi_word x)"
  using put_bits_hi_mod[of p w v x] by (simp only: hi_word_put_hi)

lemma size_field_set_size [simp]:
  "length x = 16 \<Longrightarrow> size_field (set_size n x) = n mod 2 ^ 54"
  by (simp add: size_field_def set_size_def hi_put_field get_put_same take_bit_eq_mod)

lemma capacity_field_set_size [simp]:
  "length x = 16 \<Longrightarrow> capacity_field (set_size n x) = capacity_field x"
  by (simp add: capacity_field_def set_size_def hi_put_field get_put_other)

lemma xs_is_ptr_set_size [simp]:
  "length x = 16 \<Longrightarrow> xs_is_ptr (set_size n x) = xs_is_ptr x"
  by (simp add: xs_is_ptr_def set_size_def hi_put_field get_put_other)

lemma xs_ptr_set_size [simp]:
  "length x = 16 \<Longrightarrow> xs_ptr (set_size n x) = xs_ptr x"
  by (simp add: xs_ptr_def set_size_def lo_word_put_hi)

lemma capacity_field_set_capacity [simp]:
  "length x = 16 \<Longrightarrow> capacity_field (set_capacity c x) = c mod 64"
  by (simp add: capacity_field_def set_capacity_def hi_put_field get_put_same take_bit_eq_mod)

lemma size_field_set_capacity [simp]:
  "length x = 16 \<Longrightarrow> size_field (set_capacity c x) = size_field x"
  by (simp add: size_field_def set_capacity_def hi_put_field get_put_other)

lemma xs_is_ptr_set_capacity [simp]:
  "length x = 16 \<Longrightarrow> xs_is_ptr (set_capacity c x) = xs_is_ptr x"
  by (simp add: xs_is_ptr_def set_capacity_def hi_put_field get_put_other)

lemma xs_ptr_set_capacity [simp]:
  "length x = 16 \<Longrightarrow> xs_ptr (set_capacity c x) = xs_ptr x"
  by (simp add: xs_ptr_def set_capacity_def lo_word_put_hi)

lemma space_left_set_space_left [simp]:
  "length x = 16 \<Longrightarrow> space_left (set_space_left k x) = k mod 16"
  by (simp add: space_left_def set_space_left_def hi_put_field get_put_same take_bit_eq_mod)

lemma xs_is_ptr_set_space_left [simp]:
  "length x = 16 \<Longrightarrow> xs_is_ptr (set_space_left k x) = xs_is_ptr x"
  by (simp add: xs_is_ptr_def set_space_left_def hi_put_field get_put_other)

lemma size_field_set_space_left [simp]:
  "length x = 16 \<Longrightarrow> size_field (set_space_left k x) = size_field x"
  by (simp add: size_field_def set_space_left_def hi_put_field get_put_other)

lemma xs_ptr_set_space_left [simp]:
  "length x = 16 \<Longrightarrow> xs_ptr (set_space_left k x) = xs_ptr x"
  by (simp add: xs_ptr_def set_space_left_def lo_word_put_hi)

lemma xs_is_ptr_set_is_ptr [simp]:
  "length x = 16 \<Longrightarrow> xs_is_ptr (set_is_ptr b x) = b"
  by (simp add: xs_is_ptr_def set_is_ptr_def hi_put_field get_put_same)

lemma size_field_set_is_ptr [simp]:
  "length x = 16 \<Longrightarrow> size_field (set_is_ptr b x) = size_field x"
  by (simp add: size_field_def set_is_ptr_def hi_put_field get_put_other)

lemma capacity_field_set_is_ptr [simp]:
  "length x = 16 \<Longrightarrow> capacity_field (set_is_ptr b x) = capacity_field x"
  by (simp add: capacity_field_def set_is_ptr_def hi_put_field get_put_other)

lemma space_left_set_is_ptr [simp]:
  "length x = 16 \<Longrightarrow> space_left (set_is_ptr b x) = space_left x"
  by (simp add: space_left_def set_is_ptr_def hi_put_field get_put_other)

lemma xs_ptr_set_is_ptr [simp]:
  "length x = 16 \<Longrightarrow> xs_ptr (set_is_ptr b x) = xs_ptr x"
  by (simp add: xs_ptr_def set_is_ptr_def lo_word_put_hi)

lemma xs_ptr_set_ptr [simp]: "xs_ptr (set_ptr a x) = a mod 2 ^ 64"
  by (simp add: xs_ptr_def set_ptr_def lo_word_put_lo)

lemma size_field_set_ptr [simp]: "size_field (set_ptr a x) = size_field x"
  by (simp add: size_field_def set_ptr_def hi_word_put_lo)

lemma capacity_field_set_ptr [simp]: "capacity_field (set_ptr a x) = capacity_field x"
  by (simp add: capacity_field_def set_ptr_def hi_word_put_lo)

lemma xs_is_ptr_set_ptr [simp]: "xs_is_ptr (set_ptr a x) = xs_is_ptr x"
  by (simp add: xs_is_ptr_def set_ptr_def hi_word_put_lo)

lemma size_field_bound: "size_field x < 2 ^ 54"
  by (simp add: size_field_def get_bits_def take_bit_eq_mod)

lemma capacity_field_bound: "capacity_field x < 64"
  by (simp add: capacity_field_def get_bits_def take_bit_eq_mod)

lemma space_left_bound: "space_left x < 16"
  by (simp add: space_left_def get_bits_def take_bit_eq_mod)

lemma xs_ptr_bound: "xs_ptr x < 2 ^ 64"
  using lo_word_bound[of x] by (simp only: xs_ptr_def)

text \<open>The bytes that writing a field leaves alone.\<close>

lemma take_8_put_hi: "length x = 16 \<Longrightarrow> take 8 (put_hi v x) = take 8 x"
  by (simp add: put_hi_def)

lemma le_bytes_hi_word: "length x = 16 \<Longrightarrow> le_bytes 8 (hi_word x) = drop 8 x"
  using le_bytes_le_val[of "take 8 (drop 8 x)"] by (simp add: hi_word_def)

lemma take_7_le_bytes_8: "take 7 (le_bytes 8 v) = le_bytes 7 (v mod 2 ^ 56)"
proof -
  have "le_bytes (7 + 1) v = le_bytes 7 v @ le_bytes 1 (v div 256 ^ 7)"
    by (rule le_bytes_add)
  then have "take 7 (le_bytes 8 v) = le_bytes 7 v" by simp
  also have "\<dots> = le_bytes 7 (v mod 256 ^ 7)" by (simp only: le_bytes_mod)
  finally show ?thesis by simp
qed

lemma take_15_put_hi:
  assumes "length x = 16" "v mod 2 ^ 56 = hi_word x mod 2 ^ 56"
  shows "take 15 (put_hi v x) = take 15 x"
proof -
  have "take 7 (le_bytes 8 v) = take 7 (le_bytes 8 (hi_word x))"
    by (simp only: take_7_le_bytes_8 assms(2))
  also have "\<dots> = take 7 (drop 8 x)" by (simp add: le_bytes_hi_word assms(1))
  finally have "take 7 (le_bytes 8 v) = take 7 (drop 8 x)" .
  moreover have "take 15 (put_hi v x) = take 8 x @ take 7 (le_bytes 8 v)"
    using assms(1) by (simp add: put_hi_def)
  moreover have "take 15 x = take 8 x @ take 7 (drop 8 x)"
    using take_add[of 8 7 x] by simp
  ultimately show ?thesis by simp
qed

lemma put_bits_low: "n \<le> p \<Longrightarrow> put_bits p w v x mod 2 ^ n = x mod 2 ^ n"
proof -
  assume "n \<le> p"
  then have "take_bit n (put_bits p w v x) = take_bit n x"
    by (intro bit_eqI) (auto simp add: bit_simps bit_put_bits)
  then show ?thesis by (simp add: take_bit_eq_mod)
qed

lemma take_15_set_space_left [simp]:
  "length x = 16 \<Longrightarrow> take 15 (set_space_left k x) = take 15 x"
  unfolding set_space_left_def by (rule take_15_put_hi, assumption, rule put_bits_low, simp)

lemma take_15_set_is_ptr [simp]:
  "length x = 16 \<Longrightarrow> take 15 (set_is_ptr b x) = take 15 x"
  unfolding set_is_ptr_def by (rule take_15_put_hi, assumption, rule put_bits_low, simp)

text \<open>Byte 15 holds \<^verbatim>\<open>space_left\<close> and \<^verbatim>\<open>is_ptr\<close>.\<close>

lemma hi_word_byte_15:
  assumes "length x = 16"
  shows "drop_bit 56 (hi_word x) = unat (x ! 15)"
proof -
  have "take 8 (drop 8 x) = take 7 (drop 8 x) @ [x ! 15]"
    using assms take_Suc_conv_app_nth[of 7 "drop 8 x"] by simp
  then have "hi_word x = le_val (take 7 (drop 8 x) @ [x ! 15])"
    by (simp only: hi_word_def)
  then have "hi_word x = le_val (take 7 (drop 8 x)) + 256 ^ 7 * unat (x ! 15)"
    using assms by (simp add: le_val_append)
  moreover have "le_val (take 7 (drop 8 x)) < 256 ^ 7"
    using le_val_bound[of "take 7 (drop 8 x)"] assms by simp
  ultimately show ?thesis by (simp add: drop_bit_eq_div)
qed

lemma xs_is_ptr_byte_15:
  "length x = 16 \<Longrightarrow> xs_is_ptr x \<longleftrightarrow> get_bits 4 1 (unat (x ! 15)) = 1"
proof -
  assume a: "length x = 16"
  have "get_bits 60 1 (hi_word x) = get_bits 4 1 (drop_bit 56 (hi_word x))"
    by (simp add: get_bits_def drop_bit_drop_bit)
  then show ?thesis by (simp add: xs_is_ptr_def hi_word_byte_15[OF a])
qed

lemma space_left_byte_15:
  "length x = 16 \<Longrightarrow> space_left x = unat (x ! 15) mod 16"
  by (simp add: space_left_def get_bits_def hi_word_byte_15 take_bit_eq_mod)

lemma byte_15_zero:
  "length x = 16 \<Longrightarrow> x ! 15 = 0 \<Longrightarrow> \<not> xs_is_ptr x \<and> space_left x = 0"
  by (simp add: xs_is_ptr_byte_15 space_left_byte_15 get_bits_def)

lemma byte_15_same:
  "length x = 16 \<Longrightarrow> length y = 16 \<Longrightarrow> y ! 15 = x ! 15 \<Longrightarrow>
   xs_is_ptr y = xs_is_ptr x \<and> space_left y = space_left x"
  by (simp add: xs_is_ptr_byte_15 space_left_byte_15)

lemma length_xs_literal_empty [simp]: "length xs_literal_empty = 16"
  by (simp add: xs_literal_empty_def)


section \<open>The primitives\<close>

lemma takeWhile_nonzero_less:
  "(0::byte) \<in> set p \<Longrightarrow> length (takeWhile (\<lambda>c. c \<noteq> 0) p) < length p"
  by (induction p) auto

lemma takeWhile_nonzero_append:
  "(0::byte) \<notin> set b \<Longrightarrow> takeWhile (\<lambda>c. c \<noteq> 0) (b @ 0 # r) = b"
  by (induction b) auto

lemma strlen_Some:
  assumes "strlen p = Some n"
  shows "n < length p \<and> p ! n = 0 \<and> 0 \<notin> set (take n p)"
proof -
  from assms have z: "0 \<in> set p" and n: "n = length (takeWhile (\<lambda>c. c \<noteq> 0) p)"
    by (auto simp add: strlen_def split: if_splits)
  from z have lt: "n < length p"
    unfolding n by (rule takeWhile_nonzero_less)
  have "\<not> (p ! n \<noteq> 0)" unfolding n using lt n by (intro nth_length_takeWhile) simp
  moreover have "take n p = takeWhile (\<lambda>c. c \<noteq> 0) p"
    unfolding n by (metis takeWhile_eq_take)
  then have "0 \<notin> set (take n p)" by (metis (mono_tags, lifting) set_takeWhileD)
  ultimately show ?thesis using lt by simp
qed

lemma strlen_append: "0 \<notin> set b \<Longrightarrow> strlen (b @ 0 # r) = Some (length b)"
  by (simp add: strlen_def takeWhile_nonzero_append)

lemma bit_len_bounds: "n < 2 ^ bit_len n \<and> (0 < n \<longrightarrow> 2 ^ (bit_len n - 1) \<le> n)"
proof (induction n rule: bit_len.induct)
  case (1 n)
  show ?case
  proof (cases "n = 0")
    case True
    then show ?thesis by (simp add: bit_len.simps)
  next
    case False
    then have eq: "bit_len n = Suc (bit_len (n div 2))" by (subst bit_len.simps) simp
    from 1[OF False] have ih: "n div 2 < 2 ^ bit_len (n div 2)"
      and ih2: "0 < n div 2 \<longrightarrow> 2 ^ (bit_len (n div 2) - 1) \<le> n div 2" by simp_all
    have a: "n < 2 ^ bit_len n" using ih by (simp add: eq)
    have b: "2 ^ (bit_len n - 1) \<le> n"
    proof (cases "n div 2 = 0")
      case True
      then have "bit_len (n div 2) = 0" by (simp add: bit_len.simps)
      with False show ?thesis by (simp add: eq)
    next
      case nz: False
      then have "bit_len (n div 2) = Suc (bit_len (n div 2 div 2))" by (subst bit_len.simps) simp
      then have "(2::nat) ^ bit_len (n div 2) = 2 * 2 ^ (bit_len (n div 2) - 1)" by simp
      moreover from nz ih2 have "2 ^ (bit_len (n div 2) - 1) \<le> n div 2" by simp
      ultimately have "2 ^ bit_len (n div 2) \<le> 2 * (n div 2)" by simp
      also have "\<dots> \<le> n" by simp
      finally show ?thesis by (simp add: eq)
    qed
    from a b show ?thesis by simp
  qed
qed

lemma ilog2_Some:
  assumes "0 < n" "n < 2 ^ 32"
  shows "\<exists>k. ilog2 n = Some k \<and> k < 32 \<and> 2 ^ k \<le> n \<and> n < 2 ^ Suc k"
proof -
  from bit_len_bounds[of n] assms(1)
  have up: "n < 2 ^ bit_len n" and lo: "2 ^ (bit_len n - 1) \<le> n" by simp_all
  have pos: "0 < bit_len n" using assms(1) by (subst bit_len.simps) simp
  from lo assms(2) have "(2::nat) ^ (bit_len n - 1) < 2 ^ 32" by (rule le_less_trans)
  then have "bit_len n - 1 < 32" by (rule power_less_imp_less_exp[rotated]) simp
  with pos have le: "bit_len n \<le> 32" by simp
  obtain k where k: "bit_len n = Suc k" using pos by (cases "bit_len n") simp_all
  have "n mod 2 ^ 32 = n" using assms(2) by simp
  then have "ilog2 n = Some k"
    using assms(1) le by (simp add: ilog2_def builtin_clz_def k)
  moreover have "k < 32" using le k by simp
  moreover have "2 ^ k \<le> n" using lo k by simp
  moreover have "n < 2 ^ Suc k" using up by (simp only: k)
  ultimately show ?thesis by blast
qed

lemma blocks_set_block [simp]: "0 < a \<Longrightarrow> blocks (set_block m a b) = (blocks m)[a - 1 := b]"
  by (simp add: set_block_def)
lemma old_set_block [simp]: "old (set_block m a b) = old m"
  by (simp add: set_block_def)
lemma junk_set_block [simp]: "junk (set_block m a b) = junk m"
  by (simp add: set_block_def)

lemma block_at_set_block:
  "block_at (set_block m a b) a' =
     (if a' = a \<and> 0 < a \<and> a \<le> length (blocks m) then b else block_at m a')"
  by (cases a; cases a') (auto simp add: block_at_def set_block_def nth_list_update)


lemma malloc_props:
  "malloc m n = (a, m') \<Longrightarrow>
   a = Suc (length (blocks m)) \<and>
   blocks m' = blocks m @ [Some (map (junk m a) [0..<n])] \<and> junk m' = junk m \<and> old m' = old m"
  by (auto simp add: malloc_def Let_def)



lemma unat_byte_15: "length x = 16 \<Longrightarrow> unat (x ! 15) = drop_bit 56 (hi_word x)"
  by (simp add: hi_word_byte_15)

lemma hi_word_set_space_left:
  "length x = 16 \<Longrightarrow> hi_word (set_space_left k x) = put_bits 56 4 k (hi_word x)"
  by (simp add: set_space_left_def hi_put_field)

lemma hi_word_set_is_ptr:
  "length x = 16 \<Longrightarrow>
   hi_word (set_is_ptr b x) = put_bits 60 1 (if b then 1 else 0) (hi_word x)"
  by (simp only: set_is_ptr_def hi_put_field)

lemma inline_tag_zero:
  assumes "length y = 16" "y ! 15 = 0"
  shows "set_is_ptr False (set_space_left 0 y) ! 15 = 0"
proof -
  let ?x = "set_is_ptr False (set_space_left 0 y)"
  have h: "drop_bit 56 (hi_word y) = 0" using assms by (simp flip: unat_byte_15)
  have nb: "\<not> bit (hi_word y) (56 + j)" for j
    using h by (metis bit_drop_bit_eq bit_0_eq bot_apply bot_bool_def comp_apply)
  have "hi_word ?x = put_bits 60 1 0 (put_bits 56 4 0 (hi_word y))"
    using assms(1) by (simp add: hi_word_set_is_ptr hi_word_set_space_left)
  moreover have "drop_bit 56 (put_bits 60 1 0 (put_bits 56 4 0 (hi_word y))) = 0"
  proof (rule bit_eqI)
    fix j
    have "\<not> bit (hi_word y) (j + 56)" using nb[of j] by (simp add: add.commute)
    with nb[of j] show "bit (drop_bit 56 (put_bits 60 1 0 (put_bits 56 4 0 (hi_word y)))) j = bit (0::nat) j"
      by (auto simp add: bit_drop_bit_eq bit_put_bits)
  qed
  ultimately have "unat (?x ! 15) = 0" using assms(1) by (simp add: unat_byte_15)
  then show ?thesis by (simp add: unat_eq_0)
qed

lemma xs_new_inline:
  assumes s: "strlen p = Some n" and n: "n \<le> 15"
  shows "\<exists>x. xs_new m p = Some (x, m) \<and> length x = 16 \<and> \<not> xs_is_ptr x \<and> xs_size x = n \<and>
    take n x = take n p \<and> x ! n = 0"
proof -
  from strlen_Some[OF s] have lt: "n < length p" and z: "p ! n = 0" by simp_all
  define y where "y = take (Suc n) p @ drop (Suc n) xs_literal_empty"
  define x where "x = set_is_ptr False (set_space_left (15 - n) y)"
  have ly: "length y = 16" using lt n by (simp add: y_def)
  have st: "store_n xs_literal_empty m Own 0 (take (Suc n) p) = Some (y, m)"
    using lt n by (simp add: store_n_def fetch_def stash_def y_def)
  have new: "xs_new m p = Some (x, m)"
    using n by (simp add: xs_new_def s st x_def)
  have lx: "length x = 16" using ly by (simp add: x_def)
  have np: "\<not> xs_is_ptr x" using ly by (simp add: x_def)
  have sz: "xs_size x = n" using ly n by (simp add: x_def xs_size_def)
  have t15: "take 15 x = take 15 y" using ly by (simp add: x_def)
  have "take n (take 15 x) = take n (take 15 y)" by (simp only: t15)
  then have tn: "take n x = take n p" using n lt by (simp add: min_def y_def)
  have xn: "x ! n = 0"
  proof (cases "n = 15")
    case True
    then have "y ! 15 = 0" using z lt by (simp add: y_def nth_append)
    with ly True show ?thesis using inline_tag_zero[of y] by (simp add: x_def)
  next
    case False
    with n have n15: "n < 15" by simp
    then have "x ! n = take 15 x ! n" by simp
    also have "\<dots> = y ! n" using n15 by (simp add: t15)
    also have "\<dots> = 0" using z lt by (simp add: y_def nth_append)
    finally show ?thesis .
  qed
  from new lx np sz tn xn show ?thesis by blast
qed

lemma xs_new_heap:
  assumes s: "strlen p = Some n" and n: "16 \<le> n" and n32: "n + 1 < 2 ^ 32"
    and sp: "Suc (length (blocks m)) < 2 ^ 64"
  shows "\<exists>x m' B k. xs_new m p = Some (x, m') \<and> length x = 16 \<and> xs_is_ptr x \<and>
    size_field x = n \<and> capacity_field x = Suc k \<and> 2 ^ k \<le> n + 1 \<and> n + 1 < 2 ^ Suc k \<and>
    xs_ptr x = Suc (length (blocks m)) \<and> blocks m' = blocks m @ [Some B] \<and>
    junk m' = junk m \<and> old m' = old m \<and> length B = 2 ^ Suc k \<and> take n B = take n p \<and>
    B ! n = 0 \<and> B ! Suc n = 1"
proof -
  from strlen_Some[OF s] have lt: "n < length p" and z: "p ! n = 0" by simp_all
  from ilog2_Some[of "n + 1"] n32 obtain k where
    il: "ilog2 (Suc n) = Some k" and k32: "k < 32" and klo: "2 ^ k \<le> n + 1"
    and kup: "n + 1 < 2 ^ Suc k" by auto
  define a where "a = Suc (length (blocks m))"
  define J where "J = map (junk m a) [0..<2 ^ Suc k]"
  define x where
    "x = set_ptr a (set_is_ptr True (set_size n (set_capacity (Suc k) xs_literal_empty)))"
  define B where "B = (take (Suc n) p @ drop (Suc n) J)[Suc n := 1]"
  define m1 where "m1 = m\<lparr>blocks := blocks m @ [Some J]\<rparr>"
  define m' where "m' = m\<lparr>blocks := blocks m @ [Some B]\<rparr>"
  have n54: "n < 2 ^ 54"
  proof -
    have "n < (2::nat) ^ 32" using n32 by simp
    also have "(2::nat) ^ 32 \<le> 2 ^ 54" by simp
    finally show ?thesis .
  qed
  have lx: "length x = 16" by (simp add: x_def)
  have ip: "xs_is_ptr x" by (simp add: x_def)
  have sf: "size_field x = n" using n54 by (simp add: x_def)
  have cf: "capacity_field x = Suc k" using k32 by (simp add: x_def)
  have pt: "xs_ptr x = a" using sp by (simp add: x_def a_def)
  have cf3: "capacity_field (set_is_ptr True (set_size n (set_capacity (Suc k) xs_literal_empty))) = Suc k"
    using k32 by simp
  have amod: "a mod 18446744073709551616 = a" using sp by (simp add: a_def)
  have ma: "malloc m (2 * 2 ^ k) = (a, m1)"
    by (simp add: malloc_def Let_def a_def J_def m1_def)
  have lJ: "length J = 2 ^ Suc k" by (simp add: J_def)
  have ba1: "block_at m1 a = Some J" by (simp add: block_at_def m1_def a_def)
  have st: "store_n x m1 (Blk a) 0 (take (Suc n) p) =
     Some (x, set_block m1 a (Some (take (Suc n) p @ drop (Suc n) J)))"
    using lt kup lJ by (simp add: store_n_def fetch_def stash_def ba1)
  have ba2: "block_at (set_block m1 a (Some (take (Suc n) p @ drop (Suc n) J))) a =
     Some (take (Suc n) p @ drop (Suc n) J)"
    by (simp add: block_at_set_block m1_def a_def)
  have m'eq: "set_block (set_block m1 a (Some (take (Suc n) p @ drop (Suc n) J))) a (Some B) = m'"
    by (simp add: set_block_def m1_def m'_def a_def)
  have rc: "set_ref_counter (set_block m1 a (Some (take (Suc n) p @ drop (Suc n) J))) x 1 = Some m'"
    using lt kup lJ by (simp add: set_ref_counter_def blk_store_def pt sf ba2 m'eq flip: B_def)
  have new: "xs_new m p = Some (x, m')"
    using n by (simp add: xs_new_def s il cf3 ma Let_def amod st rc flip: x_def)
  have lB: "length B = 2 ^ Suc k" using lt kup lJ by (simp add: B_def)
  have tB: "take n B = take n p" using lt by (simp add: B_def)
  have Bn: "B ! n = 0" using lt z by (simp add: B_def nth_append)
  have Bs: "B ! Suc n = 1" using lt kup lJ by (simp add: B_def)
  from new lx ip sf cf klo kup pt lB tB Bn Bs show ?thesis
    unfolding a_def by (intro exI[of _ x] exI[of _ m'] exI[of _ B] exI[of _ k]) (simp add: m'_def)
qed

lemma least_class_minimal:
  "least_class n c \<longleftrightarrow> n \<le> 2 ^ c \<and> (\<forall>c'<c. 2 ^ c' < n)"
proof (cases c)
  case 0
  then show ?thesis by (simp add: least_class_def)
next
  case (Suc k)
  have "(\<forall>c'<Suc k. (2::nat) ^ c' < n) \<longleftrightarrow> 2 ^ k < n"
  proof
    assume "\<forall>c'<Suc k. (2::nat) ^ c' < n"
    then show "2 ^ k < n" by simp
  next
    assume a: "2 ^ k < n"
    show "\<forall>c'<Suc k. (2::nat) ^ c' < n"
    proof (intro allI impI)
      fix c' assume "c' < Suc k"
      then have "c' \<le> k" by simp
      then have "(2::nat) ^ c' \<le> 2 ^ k" by (rule power_increasing) simp
      from this a show "2 ^ c' < n" by (rule le_less_trans)
    qed
  qed
  with Suc show ?thesis by (simp add: least_class_def)
qed

lemma xs_bytes_inline:
  "length x = 16 \<Longrightarrow> \<not> xs_is_ptr x \<Longrightarrow> xs_bytes m x = Some (take (xs_size x) x)"
  by (simp add: xs_bytes_def load_n_def fetch_def xs_data_def xs_size_def)

lemma xs_bytes_heap:
  "xs_is_ptr x \<Longrightarrow> block_at m (xs_ptr x) = Some B \<Longrightarrow> size_field x \<le> length B \<Longrightarrow>
   xs_bytes m x = Some (take (size_field x) B)"
  by (simp add: xs_bytes_def load_n_def fetch_def xs_data_def xs_size_def)

section \<open>Tokenizing a string\<close>

text \<open>
  C6. Tokenizing \<^verbatim>\<open>"a,,b,c"\<close> with the delimiter set \<^verbatim>\<open>","\<close>: the call with the
  string returns the token \<^verbatim>\<open>"a"\<close> and leaves \<^verbatim>\<open>old\<close> pointing to a temporary
  of the call, dead once the call has returned. The next call, with the null pointer,
  copies through \<^verbatim>\<open>old\<close> into a temporary that is dead one line later and goes on
  with it: it is undefined behaviour, and so is the whole sequence of four calls. This
  holds in every memory.
\<close>

theorem tok_scenario_undefined:
  "do { (x, m) \<leftarrow> xs_new m (ascii ''a,,b,c'' @ [0]);
        (r, x, m) \<leftarrow> xs_tok m (Some x) (ascii '','' @ [0]);
        t \<leftarrow> xs_bytes m x;
        Some (r, t, old m) }
   = Some (True, ascii ''a'', Dead) \<and>
   do { (x, m) \<leftarrow> xs_new m (ascii ''a,,b,c'' @ [0]);
        (r, x, m) \<leftarrow> xs_tok m (Some x) (ascii '','' @ [0]);
        xs_tok m None (ascii '','' @ [0]) }
   = None \<and>
   do { (x, m) \<leftarrow> xs_new m (ascii ''a,,b,c'' @ [0]);
        tok_run m (Some x) (ascii '','' @ [0]) 4 }
   = None"
  by (simp add: eval_simps cong: eval_congs)

section \<open>Growing an inline string\<close>

text \<open>
  C9. \<^verbatim>\<open>xs_grow\<close> moves an inline string to the heap without storing its size: the
  size field of the result is what bits 0..53 of the bytes 8..15 of the inline string
  held. For \<^verbatim>\<open>"abc"\<close>, of size 3, grown to 16 bytes, the result has size 0.
\<close>

theorem grow_inline_loses_size:
  "do { (x, m) \<leftarrow> xs_new mem0 (ascii ''abc'' @ [0]);
        (y, m) \<leftarrow> xs_grow m x 16;
        Some (xs_is_ptr x, xs_size x, xs_is_ptr y, xs_size y) }
   = Some (False, 3, True, 0)"
  by (simp add: eval_simps cong: eval_congs)

section \<open>Trimming a string made of bytes of the set only\<close>

text \<open>
  C8. On a string whose bytes all belong to the trim set, both scans of \<^verbatim>\<open>xs_trim\<close>
  run over the whole string: \<^verbatim>\<open>i\<close> ends at the length and \<^verbatim>\<open>slen\<close> at 0, so
  \<^verbatim>\<open>slen -= i\<close> wraps around and \<^verbatim>\<open>memmove\<close> is called with a length far beyond
  the object. For the string of two spaces and the set \<^verbatim>\<open>" "\<close> the behaviour is
  undefined.
\<close>

theorem trim_all_in_set_undefined:
  "do { (x, m) \<leftarrow> xs_new mem0 (ascii ''  '' @ [0]);
        xs_trim m x (ascii '' '' @ [0]) }
   = None"
  by (simp add: eval_simps cong: eval_congs)

section \<open>Construction: size and bytes\<close>

text \<open>
  C4. \<^verbatim>\<open>xs_new\<close> takes its length from \<^verbatim>\<open>strlen\<close>. For every byte sequence \<open>b\<close>
  with no zero byte and fewer than \<open>2^32 - 1\<close> bytes, followed by a zero byte and
  anything else, the string built has the size \<open>length b\<close> and its data are the bytes
  of \<open>b\<close>, in every memory whose next block address fits in a pointer.
\<close>

theorem xs_new_roundtrip:
  assumes "0 \<notin> set b" "length b + 1 < 2 ^ 32" "Suc (length (blocks m)) < 2 ^ 64"
  shows "new_size m (b @ 0 # r) = Some (length b) \<and> new_bytes m (b @ 0 # r) = Some b"
proof -
  let ?p = "b @ 0 # r"
  have s: "strlen ?p = Some (length b)" using assms(1) by (rule strlen_append)
  show ?thesis
  proof (cases "length b \<le> 15")
    case True
    from xs_new_inline[OF s True, of m] obtain x where
      x: "xs_new m ?p = Some (x, m)" "length x = 16" "\<not> xs_is_ptr x" "xs_size x = length b"
        "take (length b) x = take (length b) ?p" by blast
    then show ?thesis by (simp add: new_size_def new_bytes_def xs_bytes_inline)
  next
    case False
    then have "16 \<le> length b" by simp
    from xs_new_heap[OF s this assms(2,3)] obtain x m' B k where
      x: "xs_new m ?p = Some (x, m')" "xs_is_ptr x" "size_field x = length b"
        "xs_ptr x = Suc (length (blocks m))" "blocks m' = blocks m @ [Some B]"
        "length B = 2 ^ Suc k" "length b + 1 < 2 ^ Suc k" "take (length b) B = take (length b) ?p"
      by blast
    have ba: "block_at m' (xs_ptr x) = Some B" using x(4,5) by (simp add: block_at_def)
    have "size_field x \<le> length B" using x(3,6,7) by simp
    from xs_bytes_heap[OF x(2) ba this] x show ?thesis
      by (simp add: new_size_def new_bytes_def xs_size_def)
  qed
qed

theorem xs_new_roundtrip_witness:
  "new_size mem0 (ascii ''sixteen or more bytes'' @ [0]) = Some 21 \<and>
   new_bytes mem0 (ascii ''sixteen or more bytes'' @ [0]) = Some (ascii ''sixteen or more bytes'')"
  using xs_new_roundtrip[of "ascii ''sixteen or more bytes''" mem0 "[]"]
  by (simp add: ascii_def mem0_def)

text \<open>
  The claim as it is written fails for a sequence with a zero byte inside: built from
  the bytes \<open>a\<close>, 0, \<open>b\<close> and the terminator, the string has size 1 and the one byte
  \<open>a\<close>.
\<close>

theorem xs_new_embedded_nul:
  "new_size mem0 ([97, 0, 98] @ [0]) = Some 1 \<and>
   new_size mem0 ([97, 0, 98] @ [0]) \<noteq> Some (length [97, 0, 98 :: byte]) \<and>
   new_bytes mem0 ([97, 0, 98] @ [0]) = Some [97] \<and>
   new_bytes mem0 ([97, 0, 98] @ [0]) \<noteq> Some [97, 0, 98]"
  by (simp add: new_size_def new_bytes_def eval_simps cong: eval_congs)

section \<open>Construction: the layout\<close>

text \<open>
  C3. For every byte sequence \<open>b\<close> with no zero byte and fewer than \<open>2^32 - 1\<close>
  bytes: with at most 15 bytes, \<^verbatim>\<open>xs_new\<close> builds an inline string; with 16 bytes or
  more, a heap string whose capacity class \<open>c\<close> is the smallest with
  \<open>length b + 2 \<le> 2^c\<close> (the bytes, the terminator and the reference count), whose
  capacity is \<open>2^c - 1\<close>, whose block has exactly \<open>2^c\<close> bytes, and whose reference
  count, the byte after the terminator inside that block, is 1.
\<close>

theorem xs_new_layout:
  assumes "0 \<notin> set b" "length b + 1 < 2 ^ 32" "Suc (length (blocks m)) < 2 ^ 64"
  shows "(length b \<le> 15 \<longrightarrow> new_is_ptr m (b @ 0 # r) = Some False) \<and>
    (16 \<le> length b \<longrightarrow>
       (\<exists>c. least_class (length b + 2) c \<and>
          new_layout m (b @ 0 # r) = Some (True, c, 2 ^ c - 1, Some (2 ^ c), Some 1)))"
proof -
  let ?p = "b @ 0 # r"
  have s: "strlen ?p = Some (length b)" using assms(1) by (rule strlen_append)
  have inl: "new_is_ptr m ?p = Some False" if "length b \<le> 15"
  proof -
    from xs_new_inline[OF s that, of m] obtain x where
      "xs_new m ?p = Some (x, m)" "\<not> xs_is_ptr x" by blast
    then show ?thesis by (simp add: new_is_ptr_def)
  qed
  have hp: "\<exists>c. least_class (length b + 2) c \<and>
          new_layout m ?p = Some (True, c, 2 ^ c - 1, Some (2 ^ c), Some 1)" if "16 \<le> length b"
  proof -
    from xs_new_heap[OF s that assms(2,3)] obtain x m' B k where
      x: "xs_new m ?p = Some (x, m')" "xs_is_ptr x" "size_field x = length b"
        "capacity_field x = Suc k" "2 ^ k \<le> length b + 1" "length b + 1 < 2 ^ Suc k"
        "xs_ptr x = Suc (length (blocks m))" "blocks m' = blocks m @ [Some B]"
        "length B = 2 ^ Suc k" "B ! Suc (length b) = 1"
      by blast
    have ba: "block_at m' (xs_ptr x) = Some B" using x(7,8) by (simp add: block_at_def)
    have lc: "least_class (length b + 2) (Suc k)" using x(5,6) by (simp add: least_class_def)
    have rc: "xs_ref_counter m' x = Some 1"
      using x(3,6,9,10) by (simp add: xs_ref_counter_def blk_load_def ba)
    have "new_layout m ?p = Some (True, Suc k, 2 ^ Suc k - 1, Some (2 ^ Suc k), Some 1)"
      using x(1,2,4,9) ba rc by (simp add: new_layout_def xs_capacity_def)
    with lc show ?thesis by blast
  qed
  from inl hp show ?thesis by blast
qed

lemma new_layout_example:
  "new_layout mem0 (ascii ''sixteen or more bytes'' @ [0]) = Some (True, 5, 31, Some 32, Some 1)"
  by (simp add: new_layout_def eval_simps cong: eval_congs)

theorem xs_new_layout_witness:
  "new_is_ptr mem0 (ascii ''short'' @ [0]) = Some False \<and>
   new_layout mem0 (ascii ''sixteen or more bytes'' @ [0]) = Some (True, 5, 31, Some 32, Some 1)
   \<and> least_class (21 + 2) 5"
proof -
  have len: "length (ascii ''sixteen or more bytes'') = 21" by (simp add: ascii_def)
  have "0 \<notin> set (ascii ''sixteen or more bytes'')" by (simp add: ascii_def)
  moreover have "length (ascii ''sixteen or more bytes'') + 1 < 2 ^ 32" by (simp add: len)
  moreover have "Suc (length (blocks mem0)) < 2 ^ 64" by (simp add: mem0_def)
  ultimately have "\<exists>c. least_class (21 + 2) c \<and>
      new_layout mem0 (ascii ''sixteen or more bytes'' @ [0]) =
        Some (True, c, 2 ^ c - 1, Some (2 ^ c), Some 1)"
    using xs_new_layout[of "ascii ''sixteen or more bytes''" mem0 "[]"] by (simp add: len)
  then obtain c where c: "least_class (21 + 2) c"
    "new_layout mem0 (ascii ''sixteen or more bytes'' @ [0]) =
        Some (True, c, 2 ^ c - 1, Some (2 ^ c), Some 1)" by blast
  from c(2) have "c = 5" by (simp add: new_layout_example)
  with c(1) have lc: "least_class (21 + 2) 5" by simp
  have "0 \<notin> set (ascii ''short'')" "length (ascii ''short'') + 1 < 2 ^ 32"
    "length (ascii ''short'') \<le> 15" by (simp_all add: ascii_def)
  with \<open>Suc (length (blocks mem0)) < 2 ^ 64\<close>
  have "new_is_ptr mem0 (ascii ''short'' @ [0]) = Some False"
    using xs_new_layout[of "ascii ''short''" mem0 "[]"] by blast
  with lc show ?thesis by (simp add: new_layout_example)
qed

text \<open>
  The claim as it is written fails for 31 bytes: the class is 6, the capacity 63 and the
  block has 64 bytes, where 5 is the smallest class with \<open>2^c\<close> at least the length
  with its terminator, 32, and \<open>2^c\<close> bytes and one more would be 33, or 65.
\<close>

theorem xs_new_class_not_least:
  "new_layout mem0 (replicate 31 97 @ [0]) = Some (True, 6, 63, Some 64, Some 1) \<and>
   \<not> least_class (31 + 1) 6 \<and> least_class (31 + 1) 5 \<and> (64::nat) \<noteq> 2 ^ 6 + 1 \<and>
   (64::nat) \<noteq> 2 ^ 5 + 1"
  by (simp add: new_layout_def least_class_def eval_simps cong: eval_congs)

lemma length_blocks_set_block [simp]: "length (blocks (set_block m a b)) = length (blocks m)"
  by (simp add: set_block_def)





section \<open>Lemmas about xs_copy\<close>





section \<open>Assignment: sharing\<close>






lemma xs_ref_counter_cong:
  "block_at m' (xs_ptr x) = block_at m (xs_ptr x) \<Longrightarrow> xs_ref_counter m' x = xs_ref_counter m x"
  by (simp add: xs_ref_counter_def blk_load_def)


section \<open>Assignment: a source at the ceiling\<close>





end
